theory Spec2Isabelle
  imports Main "HOL-Library.Multiset"
begin

section \<open>Data types of \<^verbatim>\<open>src/js/app.ts\<close>\<close>

text \<open>
  The interfaces \<^verbatim>\<open>MenuItem\<close>, \<^verbatim>\<open>CartItem\<close>, \<^verbatim>\<open>User\<close> and \<^verbatim>\<open>Order\<close> become records.
  A TypeScript \<^verbatim>\<open>number\<close> that holds an identifier, a price or a quantity is an \<open>int\<close>
  (the program only ever produces integers there: \<^verbatim>\<open>parseInt\<close>, \<^verbatim>\<open>Date.now()\<close>,
  \<^verbatim>\<open>Math.max(...) + 1\<close>); an optional field \<^verbatim>\<open>f?: T\<close> is a \<open>T option\<close>, \<open>None\<close> being
  \<^verbatim>\<open>undefined\<close>. Field names that clash with a constant of HOL or with a field of another
  record carry a prefix: \<^verbatim>\<open>MenuItem.id\<close> is \<open>dish_id\<close>, \<^verbatim>\<open>MenuItem.image\<close> is \<open>image_src\<close>,
  \<^verbatim>\<open>Order.id\<close> is \<open>order_id\<close>, and so on.
\<close>

record MenuItem =
  dish_id :: int
  name :: string
  price :: int
  description :: string
  category :: string
  image_src :: string
  isNew :: "bool option"
  isActive :: "bool option"

record CartItem = MenuItem +
  quantity :: int

record User =
  user_id :: int
  email :: string
  user_name :: string
  studentId :: string
  isAdmin :: bool
  phone :: "string option"

datatype OrderStatus = pending | preparing | ready | completed | cancelled

record Order =
  order_id :: int
  userId :: int
  order_items :: "CartItem list"
  order_total :: int
  orderNumber :: string
  date :: string
  status :: OrderStatus
  estimatedTime :: "string option"

section \<open>Helper functions\<close>

text \<open>
  \<^verbatim>\<open>findItem\<close> and \<^verbatim>\<open>findIndex\<close> scan the array from index 0 and stop at the first element
  that satisfies the predicate; \<^verbatim>\<open>findItem\<close> returns \<^verbatim>\<open>undefined\<close> (here \<open>None\<close>) and
  \<^verbatim>\<open>findIndex\<close> returns \<open>-1\<close> when there is none. The loop counter \<^verbatim>\<open>i\<close> is the first
  argument of \<open>findIndex_from\<close>.
\<close>

fun findItem :: "'a list \<Rightarrow> ('a \<Rightarrow> bool) \<Rightarrow> 'a option" where
  "findItem [] predicate = None"
| "findItem (x # array) predicate = (if predicate x then Some x else findItem array predicate)"

fun findIndex_from :: "nat \<Rightarrow> 'a list \<Rightarrow> ('a \<Rightarrow> bool) \<Rightarrow> int" where
  "findIndex_from i [] predicate = - 1"
| "findIndex_from i (x # array) predicate =
     (if predicate x then int i else findIndex_from (Suc i) array predicate)"

definition findIndex :: "'a list \<Rightarrow> ('a \<Rightarrow> bool) \<Rightarrow> int" where
  "findIndex array predicate = findIndex_from 0 array predicate"

text \<open>
  \<^verbatim>\<open>findItem\<close> hands out a reference to the array element itself, so an assignment to a
  field of the result changes the element at the position where the scan stopped.
  \<open>assign_found\<close> is that assignment: it applies \<open>f\<close> to the first element satisfying the
  predicate and leaves every other element alone.
\<close>

fun assign_found :: "('a \<Rightarrow> bool) \<Rightarrow> ('a \<Rightarrow> 'a) \<Rightarrow> 'a list \<Rightarrow> 'a list" where
  "assign_found predicate f [] = []"
| "assign_found predicate f (x # array) =
     (if predicate x then f x # array else x # assign_found predicate f array)"

text \<open>The truthiness test \<^verbatim>\<open>if (s)\<close> on a value of type \<^verbatim>\<open>string | undefined\<close>.\<close>

fun truthy :: "string option \<Rightarrow> bool" where
  "truthy None = False"
| "truthy (Some s) = (s \<noteq> [])"

section \<open>CartManager\<close>

text \<open>
  The state of a \<^verbatim>\<open>CartManager\<close> is its private array \<^verbatim>\<open>items\<close> together with the value
  stored under the key \<^verbatim>\<open>'cart'\<close> of the local store (\<open>None\<close> while the key is absent).
  The lines of the cart are objects built by \<^verbatim>\<open>addItem\<close> itself
  (\<^verbatim>\<open>{...item, quantity: 1}\<close> is a fresh object) and no reference to them leaves the
  manager (\<^verbatim>\<open>getItems\<close> copies the array), so the list of lines is modelled by value.
\<close>

record CartManager =
  cart_items :: "CartItem list"
  cart_store :: "CartItem list option"

definition emptyCart :: CartManager where
  "emptyCart = \<lparr>cart_items = [], cart_store = None\<rparr>"

definition saveToStorage :: "CartManager \<Rightarrow> CartManager" where
  "saveToStorage cm = cm\<lparr>cart_store := Some (cart_items cm)\<rparr>"

text \<open>\<^verbatim>\<open>{...item, quantity: 1}\<close>: every field of the dish, then the quantity.\<close>

definition newLine :: "MenuItem \<Rightarrow> CartItem" where
  "newLine item = MenuItem.extend item (CartItem.fields 1)"

definition addItem :: "MenuItem \<Rightarrow> CartManager \<Rightarrow> CartManager" where
  "addItem item cm =
     (case findItem (cart_items cm) (\<lambda>cartItem. dish_id cartItem = dish_id item) of
        Some existingItem \<Rightarrow>
          saveToStorage (cm\<lparr>cart_items :=
            assign_found (\<lambda>cartItem. dish_id cartItem = dish_id item)
              (\<lambda>existingItem. existingItem\<lparr>quantity := quantity existingItem + 1\<rparr>)
              (cart_items cm)\<rparr>)
      | None \<Rightarrow>
          saveToStorage (cm\<lparr>cart_items := cart_items cm @ [newLine item]\<rparr>))"

definition removeItem :: "int \<Rightarrow> CartManager \<Rightarrow> CartManager" where
  "removeItem itemId cm =
     saveToStorage (cm\<lparr>cart_items := filter (\<lambda>item. dish_id item \<noteq> itemId) (cart_items cm)\<rparr>)"

definition updateQuantity :: "int \<Rightarrow> int \<Rightarrow> CartManager \<Rightarrow> CartManager" where
  "updateQuantity itemId n cm =
     (case findItem (cart_items cm) (\<lambda>cartItem. dish_id cartItem = itemId) of
        Some item \<Rightarrow>
          saveToStorage
            (if n \<le> 0 then removeItem itemId cm
             else cm\<lparr>cart_items :=
               assign_found (\<lambda>cartItem. dish_id cartItem = itemId)
                 (\<lambda>item. item\<lparr>quantity := n\<rparr>) (cart_items cm)\<rparr>)
      | None \<Rightarrow> cm)"

text \<open>A shopper's session is a finite sequence of the three mutating operations.\<close>

datatype CartOp = AddItem MenuItem | RemoveItem int | UpdateQuantity int int

fun applyCartOp :: "CartOp \<Rightarrow> CartManager \<Rightarrow> CartManager" where
  "applyCartOp (AddItem item) cm = addItem item cm"
| "applyCartOp (RemoveItem itemId) cm = removeItem itemId cm"
| "applyCartOp (UpdateQuantity itemId n) cm = updateQuantity itemId n cm"

fun runCart :: "CartOp list \<Rightarrow> CartManager \<Rightarrow> CartManager" where
  "runCart [] cm = cm"
| "runCart (op # ops) cm = runCart ops (applyCartOp op cm)"

section \<open>UserManager\<close>

text \<open>
  The state of a \<^verbatim>\<open>UserManager\<close>: its three private fields, and the values stored under
  the keys \<^verbatim>\<open>'currentUser'\<close>, \<^verbatim>\<open>'users'\<close> and \<^verbatim>\<open>'orders'\<close> of the local store (\<open>None\<close>
  while a key is absent). A stored value is the JSON text of a list of records; it is
  modelled by the list it encodes, \<^verbatim>\<open>JSON.parse\<close> being the inverse of
  \<^verbatim>\<open>JSON.stringify\<close> on these records. \<open>store_writes\<close> records the key of every
  \<^verbatim>\<open>localStorage.setItem\<close> call in the order of the calls, so that "no write occurs"
  can be stated.
\<close>

record UserManager =
  currentUser :: "User option"
  users :: "User list"
  orders :: "Order list"
  stored_currentUser :: "User option"
  stored_users :: "User list option"
  stored_orders :: "Order list option"
  store_writes :: "string list"

definition saveCurrentUserToStorage :: "UserManager \<Rightarrow> UserManager" where
  "saveCurrentUserToStorage um =
     (case currentUser um of
        Some user \<Rightarrow> um\<lparr>stored_currentUser := Some user,
                         store_writes := store_writes um @ [''currentUser'']\<rparr>
      | None \<Rightarrow> um)"

text \<open>
  \<^verbatim>\<open>login\<close> returns its boolean together with the new state. \<^verbatim>\<open>updateUserDisplay\<close> only
  touches the page and is left out.
\<close>

definition login :: "string \<Rightarrow> string \<Rightarrow> UserManager \<Rightarrow> bool \<times> UserManager" where
  "login em password um =
     (case findItem (users um) (\<lambda>u. email u = em) of
        Some user \<Rightarrow>
          if password = ''password''
          then (True, saveCurrentUserToStorage (um\<lparr>currentUser := Some user\<rparr>))
          else (False, um)
      | None \<Rightarrow> (False, um))"

definition getAllOrders :: "UserManager \<Rightarrow> Order list" where
  "getAllOrders um = (case stored_orders um of Some saved \<Rightarrow> saved | None \<Rightarrow> [])"

text \<open>
  \<^verbatim>\<open>updateOrderStatus\<close> works on the array parsed from the store, writes the status at
  the index found, writes the time only when the argument is truthy, and stores the
  array again. The index is in range whenever it is not \<open>-1\<close>.
\<close>

definition updateOrderStatus ::
  "int \<Rightarrow> OrderStatus \<Rightarrow> string option \<Rightarrow> UserManager \<Rightarrow> bool \<times> UserManager" where
  "updateOrderStatus orderId newStatus time um =
     (let orders0 = getAllOrders um;
          orderIndex = findIndex orders0 (\<lambda>order. order_id order = orderId)
      in if orderIndex \<noteq> - 1 then
           let i = nat orderIndex;
               orders1 = orders0[i := (orders0 ! i)\<lparr>status := newStatus\<rparr>];
               orders2 = (if truthy time
                          then orders1[i := (orders1 ! i)\<lparr>estimatedTime := time\<rparr>]
                          else orders1)
           in (True, um\<lparr>stored_orders := Some orders2,
                        store_writes := store_writes um @ [''orders'']\<rparr>)
         else (False, um))"

section \<open>OrderManager\<close>

text \<open>The value of the \<^verbatim>\<open>data-status\<close> attribute that names a status.\<close>

fun statusText :: "OrderStatus \<Rightarrow> string" where
  "statusText pending = ''pending''"
| "statusText preparing = ''preparing''"
| "statusText ready = ''ready''"
| "statusText completed = ''completed''"
| "statusText cancelled = ''cancelled''"

text \<open>
  \<^verbatim>\<open>renderStatusButtons\<close> returns the markup of the buttons shown for an order; the model
  keeps the \<^verbatim>\<open>data-action\<close> attribute of each button, in the order of the markup.
\<close>

definition renderStatusButtons :: "OrderStatus \<Rightarrow> string list" where
  "renderStatusButtons currentStatus =
     (if currentStatus = pending then [''preparing'', ''cancelled''] else []) @
     (if currentStatus = preparing then [''ready'', ''cancelled''] else []) @
     (if currentStatus = ready then [''completed''] else []) @
     (if currentStatus \<noteq> completed \<and> currentStatus \<noteq> cancelled then [''set_time''] else [])"

text \<open>
  \<^verbatim>\<open>handleOrderAction\<close> receives the order id and the action of the clicked button. Two of
  its branches open a dialog and continue in a callback: \<open>confirmed\<close> is the answer to the
  cancellation dialog and \<open>time\<close> the answer to the time form (\<^verbatim>\<open>string | false\<close>, \<open>None\<close>
  being \<^verbatim>\<open>false\<close>). The result is the state of the user manager afterwards; the
  re-rendering of the list is left out.
\<close>

definition handleOrderAction ::
  "int \<Rightarrow> string option \<Rightarrow> bool \<Rightarrow> string option \<Rightarrow> UserManager \<Rightarrow> UserManager" where
  "handleOrderAction orderId action confirmed time um =
     (if action = Some ''preparing'' then snd (updateOrderStatus orderId preparing None um)
      else if action = Some ''ready'' then snd (updateOrderStatus orderId ready None um)
      else if action = Some ''completed'' then snd (updateOrderStatus orderId completed None um)
      else if action = Some ''cancelled'' then
        (if confirmed then snd (updateOrderStatus orderId cancelled None um) else um)
      else if action = Some ''set_time'' then
        (if truthy time then snd (updateOrderStatus orderId preparing time um) else um)
      else um)"

text \<open>
  \<^verbatim>\<open>loadAdminOrders\<close> sorts the stored orders with the comparator
  \<^verbatim>\<open>new Date(b.date).getTime() - new Date(a.date).getTime()\<close> and then filters them.
  The \<^verbatim>\<open>Date\<close> constructor belongs to the host, not to the program: \<open>getTime\<close>, a
  parameter of the model, maps a date string to the number the host computes for it,
  \<open>None\<close> when the host answers \<^verbatim>\<open>NaN\<close> (Invalid Date). The difference of two times is
  \<^verbatim>\<open>NaN\<close> as soon as one of them is.
\<close>

definition dateComparator :: "(string \<Rightarrow> int option) \<Rightarrow> Order \<Rightarrow> Order \<Rightarrow> int option" where
  "dateComparator getTime a b =
     (case getTime (date b) of
        None \<Rightarrow> None
      | Some tb \<Rightarrow> (case getTime (date a) of None \<Rightarrow> None | Some ta \<Rightarrow> Some (tb - ta)))"

text \<open>
  \<^verbatim>\<open>Array.prototype.sort\<close> reads a comparator result of \<^verbatim>\<open>NaN\<close> as \<open>+0\<close> (the language's
  \<open>SortCompare\<close>), is stable, and puts \<open>x\<close> before \<open>y\<close> when the comparator is negative on
  them. For a consistent comparator the language fixes the outcome: the stable sorted
  rearrangement, which is what inserting the elements one by one, from the last to the
  first, each before the first element it does not exceed, produces. \<open>array_sort\<close> is
  that insertion. When the comparator is not consistent (here: some dates parse and
  others do not) the language leaves the order to the host and \<open>array_sort\<close> is one of
  the orders a host may produce.
\<close>

definition SortCompare :: "('a \<Rightarrow> 'a \<Rightarrow> int option) \<Rightarrow> 'a \<Rightarrow> 'a \<Rightarrow> int" where
  "SortCompare comparefn x y = (case comparefn x y of None \<Rightarrow> 0 | Some v \<Rightarrow> v)"

fun insertStable :: "('a \<Rightarrow> 'a \<Rightarrow> int option) \<Rightarrow> 'a \<Rightarrow> 'a list \<Rightarrow> 'a list" where
  "insertStable comparefn x [] = [x]"
| "insertStable comparefn x (y # ys) =
     (if SortCompare comparefn x y \<le> 0 then x # y # ys
      else y # insertStable comparefn x ys)"

definition array_sort :: "('a \<Rightarrow> 'a \<Rightarrow> int option) \<Rightarrow> 'a list \<Rightarrow> 'a list" where
  "array_sort comparefn xs = foldr (insertStable comparefn) xs []"

text \<open>
  \<open>ordersList\<close> tells whether the element \<^verbatim>\<open>admin-orders-list\<close> exists; without it the
  function returns at once (\<open>None\<close>). Otherwise the result is the sequence of orders
  handed to \<^verbatim>\<open>renderAdminOrders\<close>, which renders them one after the other.
\<close>

definition loadAdminOrders ::
  "(string \<Rightarrow> int option) \<Rightarrow> bool \<Rightarrow> string \<Rightarrow> UserManager \<Rightarrow> Order list option" where
  "loadAdminOrders getTime ordersList filterStatus um =
     (if \<not> ordersList then None
      else
        let allOrders = getAllOrders um;
            sortedOrders = array_sort (dateComparator getTime) allOrders;
            filteredOrders =
              (if filterStatus = ''all'' then sortedOrders
               else filter (\<lambda>order. statusText (status order) = filterStatus) sortedOrders)
        in Some filteredOrders)"

section \<open>MenuManager\<close>

text \<open>
  \<^verbatim>\<open>addMenuItem\<close> pushes one and the same object onto \<^verbatim>\<open>items\<close> and \<^verbatim>\<open>allDishes\<close>, and
  \<^verbatim>\<open>removeMenuItem\<close> assigns to a field of an element of \<^verbatim>\<open>items\<close>; what the archive
  holds afterwards depends on this sharing. The menu manager is therefore modelled with
  an explicit object store: \<open>heap\<close> maps a reference to the object it denotes,
  \<open>next_ref\<close> is the next unused reference, and the three arrays are lists of
  references. An object literal allocates at \<open>next_ref\<close>. The values stored under the
  keys \<^verbatim>\<open>'menuItems'\<close> and \<^verbatim>\<open>'allDishes'\<close> are lists of objects by value, as JSON text is.
\<close>

record MenuManager =
  heap :: "nat \<Rightarrow> MenuItem"
  next_ref :: nat
  menu_items :: "nat list"
  filteredItems :: "nat list"
  allDishes :: "nat list"
  stored_menuItems :: "MenuItem list option"
  stored_allDishes :: "MenuItem list option"

text \<open>The ids of the active list and of the archive, in list order.\<close>

definition active_ids :: "MenuManager \<Rightarrow> int list" where
  "active_ids m = map (\<lambda>item. dish_id (heap m item)) (menu_items m)"

definition archive_ids :: "MenuManager \<Rightarrow> int list" where
  "archive_ids m = map (\<lambda>dish. dish_id (heap m dish)) (allDishes m)"

definition saveMenuToStorage :: "MenuManager \<Rightarrow> MenuManager" where
  "saveMenuToStorage m = m\<lparr>stored_menuItems := Some (map (heap m) (menu_items m))\<rparr>"

definition saveAllDishesToStorage :: "MenuManager \<Rightarrow> MenuManager" where
  "saveAllDishesToStorage m = m\<lparr>stored_allDishes := Some (map (heap m) (allDishes m))\<rparr>"

text \<open>
  Dish ids are numbers of the language, that is doubles. Comparing them and taking their
  maximum is exact; adding 1 is exact only up to \<open>2 ^ 53\<close>. \<open>js_add_one x\<close> is the double
  \<^verbatim>\<open>x + 1\<close> for an integer-valued double \<open>x \<ge> 0\<close>: from \<open>2 ^ 53\<close> on the doubles are
  the even numbers, \<open>x + 1\<close> lies half way between two of them and is rounded to the one
  with the even significand \<open>x div 2\<close>; from \<open>2 ^ 54\<close> on the doubles are 4 or more apart
  and \<open>x + 1\<close> is rounded back to \<open>x\<close>.
\<close>

definition js_add_one :: "int \<Rightarrow> int" where
  "js_add_one x =
     (if x < 2 ^ 53 then x + 1
      else if x < 2 ^ 54 \<and> odd (x div 2) then x + 2
      else x)"

text \<open>
  \<^verbatim>\<open>Math.max(...this.allDishes.map(dish => dish.id), 0) + 1\<close>; the maximum is at least 0.
\<close>

definition maxId :: "MenuManager \<Rightarrow> int" where
  "maxId m = Max (set (map (\<lambda>dish. dish_id (heap m dish)) (allDishes m) @ [0]))"

definition generateId :: "MenuManager \<Rightarrow> int" where
  "generateId m = js_add_one (maxId m)"

text \<open>
  The argument of \<^verbatim>\<open>addMenuItem\<close> has every field of a dish but \<^verbatim>\<open>id\<close> and \<^verbatim>\<open>isActive\<close>;
  the object literal \<^verbatim>\<open>{...item, id: this.generateId(), isActive: true}\<close> sets both, so
  the draft is a \<open>MenuItem\<close> whose two fields are overwritten.
\<close>

definition addMenuItem :: "MenuItem \<Rightarrow> MenuManager \<Rightarrow> MenuManager" where
  "addMenuItem item m =
     (let newItem = item\<lparr>dish_id := generateId m, isActive := Some True\<rparr>;
          r = next_ref m;
          m1 = m\<lparr>heap := (heap m)(r := newItem), next_ref := Suc r\<rparr>;
          m2 = m1\<lparr>menu_items := menu_items m1 @ [r]\<rparr>;
          m3 = m2\<lparr>allDishes := allDishes m2 @ [r]\<rparr>;
          m4 = saveAllDishesToStorage (saveMenuToStorage m3)
      in m4\<lparr>filteredItems := menu_items m4\<rparr>)"

text \<open>
  \<^verbatim>\<open>removeMenuItem\<close>: the assignment \<^verbatim>\<open>this.items[itemIndex].isActive = false\<close> writes
  through the reference held at that index; \<^verbatim>\<open>splice(itemIndex, 1)\<close> then drops the index.
\<close>

definition removeMenuItem :: "int \<Rightarrow> MenuManager \<Rightarrow> MenuManager" where
  "removeMenuItem itemId m =
     (let itemIndex = findIndex (menu_items m) (\<lambda>item. dish_id (heap m item) = itemId)
      in if itemIndex \<noteq> - 1 then
           let i = nat itemIndex;
               r = menu_items m ! i;
               m1 = m\<lparr>heap := (heap m)(r := (heap m r)\<lparr>isActive := Some False\<rparr>)\<rparr>;
               m2 = m1\<lparr>menu_items := take i (menu_items m1) @ drop (Suc i) (menu_items m1)\<rparr>;
               m3 = saveMenuToStorage m2
           in m3\<lparr>filteredItems := menu_items m3\<rparr>
         else m)"

text \<open>
  \<^verbatim>\<open>isDishActive\<close>, \<^verbatim>\<open>addExistingDish\<close> (restore from the archive: a copy of the archive
  entry, marked active, is pushed onto the active list) and \<^verbatim>\<open>getInactiveDishes\<close>
  (the archive entries whose id no active entry has).
\<close>

definition isDishActive :: "int \<Rightarrow> MenuManager \<Rightarrow> bool" where
  "isDishActive dishId m = (\<exists>item\<in>set (menu_items m). dish_id (heap m item) = dishId)"

definition addExistingDish :: "int \<Rightarrow> MenuManager \<Rightarrow> MenuManager" where
  "addExistingDish dishId m =
     (case findItem (allDishes m) (\<lambda>d. dish_id (heap m d) = dishId) of
        Some dish \<Rightarrow>
          if \<not> isDishActive dishId m then
            let r = next_ref m;
                m1 = m\<lparr>heap := (heap m)(r := (heap m dish)\<lparr>isActive := Some True\<rparr>),
                       next_ref := Suc r\<rparr>;
                m2 = m1\<lparr>menu_items := menu_items m1 @ [r]\<rparr>;
                m3 = saveMenuToStorage m2
            in m3\<lparr>filteredItems := menu_items m3\<rparr>
          else m
      | None \<Rightarrow> m)"

definition getInactiveDishes :: "MenuManager \<Rightarrow> nat list" where
  "getInactiveDishes m =
     (let activeIds = map (\<lambda>item. dish_id (heap m item)) (menu_items m)
      in filter (\<lambda>dish. dish_id (heap m dish) \<notin> set activeIds) (allDishes m))"

text \<open>
  \<^verbatim>\<open>deletePermanent\<close> splices the first entry with the id out of the archive and out of
  the active list, and stores both.
\<close>

definition deletePermanent :: "int \<Rightarrow> MenuManager \<Rightarrow> MenuManager" where
  "deletePermanent itemId m =
     (let allDishIndex = findIndex (allDishes m) (\<lambda>dish. dish_id (heap m dish) = itemId);
          m1 = (if allDishIndex \<noteq> - 1
                then m\<lparr>allDishes := take (nat allDishIndex) (allDishes m)
                                    @ drop (Suc (nat allDishIndex)) (allDishes m)\<rparr>
                else m);
          menuIndex = findIndex (menu_items m1) (\<lambda>item. dish_id (heap m1 item) = itemId);
          m2 = (if menuIndex \<noteq> - 1
                then m1\<lparr>menu_items := take (nat menuIndex) (menu_items m1)
                                      @ drop (Suc (nat menuIndex)) (menu_items m1)\<rparr>
                else m1);
          m3 = saveAllDishesToStorage (saveMenuToStorage m2)
      in m3\<lparr>filteredItems := menu_items m3\<rparr>)"

text \<open>
  An admin session on the catalog is a finite sequence of these operations.
  \<open>generatedIds\<close> lists the ids that \<^verbatim>\<open>generateId\<close> hands out during the session, in the
  order of the calls.
\<close>

datatype MenuOp =
  AddMenuItem MenuItem | RemoveMenuItem int | AddExistingDish int | DeletePermanent int

fun applyMenuOp :: "MenuOp \<Rightarrow> MenuManager \<Rightarrow> MenuManager" where
  "applyMenuOp (AddMenuItem item) m = addMenuItem item m"
| "applyMenuOp (RemoveMenuItem itemId) m = removeMenuItem itemId m"
| "applyMenuOp (AddExistingDish dishId) m = addExistingDish dishId m"
| "applyMenuOp (DeletePermanent itemId) m = deletePermanent itemId m"

fun handedOut :: "MenuOp \<Rightarrow> MenuManager \<Rightarrow> int list" where
  "handedOut (AddMenuItem item) m = [generateId m]"
| "handedOut (RemoveMenuItem itemId) m = []"
| "handedOut (AddExistingDish dishId) m = []"
| "handedOut (DeletePermanent itemId) m = []"

fun generatedIds :: "MenuOp list \<Rightarrow> MenuManager \<Rightarrow> int list" where
  "generatedIds [] m = []"
| "generatedIds (op # ops) m = handedOut op m @ generatedIds ops (applyMenuOp op m)"

fun isDelete :: "MenuOp \<Rightarrow> bool" where
  "isDelete (DeletePermanent itemId) = True"
| "isDelete (AddMenuItem item) = False"
| "isDelete (RemoveMenuItem itemId) = False"
| "isDelete (AddExistingDish dishId) = False"

text \<open>
  Every reference held by the archive was allocated: objects are only reached through
  references obtained from an allocation, so this holds in every state of the program.
\<close>

definition allocated :: "MenuManager \<Rightarrow> bool" where
  "allocated m = (\<forall>d\<in>set (allDishes m). d < next_ref m)"

text \<open>
  A menu manager as its field initialisers leave it: three empty arrays, nothing
  allocated, nothing stored.
\<close>

definition emptyMenu :: MenuManager where
  "emptyMenu = \<lparr>heap = (\<lambda>r. \<lparr>dish_id = 0, name = [], price = 0, description = [],
                   category = [], image_src = [], isNew = None, isActive = None\<rparr>),
                next_ref = 0, menu_items = [], filteredItems = [], allDishes = [],
                stored_menuItems = None, stored_allDishes = None\<rparr>"

section \<open>Sample data\<close>

definition borscht :: MenuItem where
  "borscht = \<lparr>dish_id = 0, name = ''Borscht'', price = 150, description = ''Beet soup'',
              category = ''First courses'', image_src = ''borscht.png'',
              isNew = Some False, isActive = None\<rparr>"

definition tea :: MenuItem where
  "tea = \<lparr>dish_id = 0, name = ''Tea'', price = 80, description = ''Black tea'',
          category = ''Drinks'', image_src = ''tea.png'',
          isNew = Some True, isActive = None\<rparr>"

definition adminUser :: User where
  "adminUser = \<lparr>user_id = 1, email = ''admin@sibsiu.ru'', user_name = ''Administrator'',
                studentId = ''ADMIN001'', isAdmin = True, phone = None\<rparr>"

definition testStudent :: User where
  "testStudent = \<lparr>user_id = 2, email = ''student@sibsiu.ru'', user_name = ''Ivanov Ivan'',
                  studentId = ''202412345'', isAdmin = False, phone = None\<rparr>"

definition sampleOrder :: "int \<Rightarrow> string \<Rightarrow> OrderStatus \<Rightarrow> Order" where
  "sampleOrder n d s = \<lparr>order_id = n, userId = 2, order_items = [], order_total = 0,
                        orderNumber = ''ORD000001'', date = d, status = s,
                        estimatedTime = Some ''12:00''\<rparr>"

definition sampleUsers :: "Order list \<Rightarrow> UserManager" where
  "sampleUsers saved = \<lparr>currentUser = None, users = [adminUser, testStudent], orders = [],
                        stored_currentUser = None, stored_users = Some [adminUser, testStudent],
                        stored_orders = Some saved, store_writes = []\<rparr>"

text \<open>
  A host whose \<^verbatim>\<open>Date\<close> answers Invalid Date, and an archive that holds one dish with the
  id \<open>2 ^ 53\<close>.
\<close>

definition invalidDate :: "string \<Rightarrow> int option" where
  "invalidDate s = None"

definition bigArchive :: MenuManager where
  "bigArchive = emptyMenu\<lparr>heap := (heap emptyMenu)(0 := borscht\<lparr>dish_id := 2 ^ 53\<rparr>),
                          next_ref := 1, allDishes := [0]\<rparr>"

section \<open>Properties of the helpers\<close>

lemma findItem_None_iff: "findItem xs p = None \<longleftrightarrow> (\<forall>x\<in>set xs. \<not> p x)"
  by (induction xs) auto

lemma findItem_Some_holds: "findItem xs p = Some y \<Longrightarrow> y \<in> set xs \<and> p y"
  by (induction xs) (auto split: if_splits)

lemma assign_found_absent: "\<forall>x\<in>set xs. \<not> p x \<Longrightarrow> assign_found p f xs = xs"
  by (induction xs) auto

lemma map_assign_found:
  "(\<And>x. g (f x) = g x) \<Longrightarrow> map g (assign_found p f xs) = map g xs"
  by (induction xs) auto

lemma length_assign_found: "length (assign_found p f xs) = length xs"
  by (induction xs) auto

lemma findIndex_from_split:
  "\<forall>x\<in>set pre. \<not> p x \<Longrightarrow> p y \<Longrightarrow> findIndex_from i (pre @ y # post) p = int (i + length pre)"
  by (induction pre arbitrary: i) auto

lemma findIndex_split:
  "\<forall>x\<in>set pre. \<not> p x \<Longrightarrow> p y \<Longrightarrow> findIndex (pre @ y # post) p = int (length pre)"
  by (simp add: findIndex_def findIndex_from_split)

lemma findIndex_from_absent:
  "\<forall>x\<in>set xs. \<not> p x \<Longrightarrow> findIndex_from i xs p = - 1"
  by (induction xs arbitrary: i) auto

lemma findIndex_absent: "\<forall>x\<in>set xs. \<not> p x \<Longrightarrow> findIndex xs p = - 1"
  by (simp add: findIndex_def findIndex_from_absent)

lemma findIndex_from_nonneg: "findIndex_from i xs p \<noteq> - 1 \<Longrightarrow> \<exists>x\<in>set xs. p x"
  by (induction xs arbitrary: i) (auto split: if_splits)

lemma first_match_split:
  "\<exists>x\<in>set xs. p x \<Longrightarrow> \<exists>pre y post. xs = pre @ y # post \<and> (\<forall>x\<in>set pre. \<not> p x) \<and> p y"
  by (metis split_list_first_prop)

lemma findItem_split:
  "\<forall>x\<in>set pre. \<not> p x \<Longrightarrow> p y \<Longrightarrow> findItem (pre @ y # post) p = Some y"
  by (induction pre) auto

lemma assign_found_split:
  "\<forall>x\<in>set pre. \<not> p x \<Longrightarrow> p y \<Longrightarrow> assign_found p f (pre @ y # post) = pre @ f y # post"
  by (induction pre) auto

lemma filter_absent: "\<forall>x\<in>set xs. P x \<Longrightarrow> filter P xs = xs"
  by (induction xs) auto

section \<open>Cart ledger: one line per dish\<close>

lemma dish_id_newLine: "dish_id (newLine item) = dish_id item"
  by (simp add: newLine_def MenuItem.defs CartItem.defs)

lemma quantity_newLine: "quantity (newLine item) = 1"
  by (simp add: newLine_def MenuItem.defs CartItem.defs)

lemma addItem_distinct:
  assumes "distinct (map dish_id (cart_items cm))"
  shows "distinct (map dish_id (cart_items (addItem item cm)))"
proof (cases "findItem (cart_items cm) (\<lambda>cartItem. dish_id cartItem = dish_id item)")
  case None
  then have "dish_id item \<notin> dish_id ` set (cart_items cm)"
    by (auto simp: findItem_None_iff)
  with assms None show ?thesis
    by (simp add: addItem_def saveToStorage_def dish_id_newLine)
next
  case (Some existingItem)
  have "map dish_id (assign_found (\<lambda>cartItem. dish_id cartItem = dish_id item)
          (\<lambda>existingItem. existingItem\<lparr>quantity := quantity existingItem + 1\<rparr>) (cart_items cm))
        = map dish_id (cart_items cm)"
    by (rule map_assign_found) simp
  with assms Some show ?thesis
    by (simp add: addItem_def saveToStorage_def)
qed

lemma removeItem_distinct:
  "distinct (map dish_id (cart_items cm)) \<Longrightarrow>
   distinct (map dish_id (cart_items (removeItem itemId cm)))"
  by (simp add: removeItem_def saveToStorage_def distinct_map_filter)

lemma updateQuantity_distinct:
  assumes "distinct (map dish_id (cart_items cm))"
  shows "distinct (map dish_id (cart_items (updateQuantity itemId n cm)))"
proof (cases "findItem (cart_items cm) (\<lambda>cartItem. dish_id cartItem = itemId)")
  case None
  with assms show ?thesis by (simp add: updateQuantity_def)
next
  case (Some item)
  have "map dish_id (assign_found (\<lambda>cartItem. dish_id cartItem = itemId)
          (\<lambda>item. item\<lparr>quantity := n\<rparr>) (cart_items cm)) = map dish_id (cart_items cm)"
    by (rule map_assign_found) simp
  with assms Some removeItem_distinct [OF assms, of itemId] show ?thesis
    by (simp add: updateQuantity_def saveToStorage_def)
qed

lemma applyCartOp_distinct:
  "distinct (map dish_id (cart_items cm)) \<Longrightarrow>
   distinct (map dish_id (cart_items (applyCartOp op cm)))"
  by (cases op) (simp_all add: addItem_distinct removeItem_distinct updateQuantity_distinct)

lemma runCart_distinct:
  "distinct (map dish_id (cart_items cm)) \<Longrightarrow>
   distinct (map dish_id (cart_items (runCart ops cm)))"
  by (induction ops arbitrary: cm) (simp_all add: applyCartOp_distinct)

text \<open>
  C6. Starting from the empty cart, after any finite sequence of \<^verbatim>\<open>addItem\<close>,
  \<^verbatim>\<open>removeItem\<close> and \<^verbatim>\<open>updateQuantity\<close> calls, with any arguments, no two lines of the
  cart carry the same dish id.
\<close>

theorem cart_never_two_lines_same_dish:
  "distinct (map dish_id (cart_items (runCart ops emptyCart)))"
  by (rule runCart_distinct) (simp add: emptyCart_def)

section \<open>Cart ledger: \<^verbatim>\<open>updateQuantity\<close>\<close>

text \<open>
  C10. When no line of the cart has the dish id, \<^verbatim>\<open>updateQuantity(id, n)\<close> changes
  nothing, for every \<open>n\<close>, positive ones included: the list of lines and the stored cart
  are the ones before the call, and no line is created.
\<close>

theorem updateQuantity_absent_unchanged:
  "\<forall>line\<in>set (cart_items cm). dish_id line \<noteq> itemId \<Longrightarrow> updateQuantity itemId n cm = cm"
proof -
  assume "\<forall>line\<in>set (cart_items cm). dish_id line \<noteq> itemId"
  then have "findItem (cart_items cm) (\<lambda>cartItem. dish_id cartItem = itemId) = None"
    by (simp add: findItem_None_iff)
  then show ?thesis by (simp add: updateQuantity_def)
qed

theorem updateQuantity_absent_unchanged_witness:
  "updateQuantity 5 3 (addItem borscht emptyCart) = addItem borscht emptyCart"
proof -
  have h: "\<forall>line\<in>set (cart_items (addItem borscht emptyCart)). dish_id line \<noteq> 5"
    by (simp add: addItem_def emptyCart_def saveToStorage_def dish_id_newLine borscht_def)
  from updateQuantity_absent_unchanged [OF h, of 3] show ?thesis .
qed

lemma updateQuantity_nonpos_lines:
  "n \<le> 0 \<Longrightarrow> cart_items (updateQuantity itemId n cm) = cart_items (removeItem itemId cm)"
proof (cases "findItem (cart_items cm) (\<lambda>cartItem. dish_id cartItem = itemId)")
  case None
  assume "n \<le> 0"
  from None have "\<forall>x\<in>set (cart_items cm). dish_id x \<noteq> itemId"
    by (simp add: findItem_None_iff)
  then have "filter (\<lambda>item. dish_id item \<noteq> itemId) (cart_items cm) = cart_items cm"
    by (rule filter_absent)
  with None show ?thesis by (simp add: updateQuantity_def removeItem_def saveToStorage_def)
next
  case (Some item)
  assume "n \<le> 0"
  with Some show ?thesis by (simp add: updateQuantity_def removeItem_def saveToStorage_def)
qed

text \<open>
  C7. For every cart and every dish id, \<^verbatim>\<open>updateQuantity(id, 0)\<close> leaves the list of lines
  exactly as \<^verbatim>\<open>removeItem(id)\<close> does, and so does \<^verbatim>\<open>updateQuantity(id, n)\<close> for every
  \<open>n \<le> 0\<close>. For \<open>n > 0\<close> and a cart that has a line for the id, the first such line gets
  the quantity \<open>n\<close> itself, whatever its quantity was, and nothing else changes.
\<close>

theorem updateQuantity_zero_is_removeItem:
  "cart_items (updateQuantity itemId 0 cm) = cart_items (removeItem itemId cm)
   \<and> (n \<le> 0 \<longrightarrow> cart_items (updateQuantity itemId n cm) = cart_items (removeItem itemId cm))
   \<and> (0 < n \<and> cart_items cm = pre @ line # post \<and> (\<forall>x\<in>set pre. dish_id x \<noteq> itemId)
        \<and> dish_id line = itemId \<longrightarrow>
      cart_items (updateQuantity itemId n cm) = pre @ line\<lparr>quantity := n\<rparr> # post)"
proof (intro conjI impI)
  show "cart_items (updateQuantity itemId 0 cm) = cart_items (removeItem itemId cm)"
    by (rule updateQuantity_nonpos_lines) simp
next
  assume "n \<le> 0"
  then show "cart_items (updateQuantity itemId n cm) = cart_items (removeItem itemId cm)"
    by (rule updateQuantity_nonpos_lines)
next
  assume a: "0 < n \<and> cart_items cm = pre @ line # post \<and> (\<forall>x\<in>set pre. dish_id x \<noteq> itemId)
        \<and> dish_id line = itemId"
  then have "findItem (cart_items cm) (\<lambda>cartItem. dish_id cartItem = itemId) = Some line"
    by (simp add: findItem_split)
  moreover from a have "assign_found (\<lambda>cartItem. dish_id cartItem = itemId)
      (\<lambda>item. item\<lparr>quantity := n\<rparr>) (cart_items cm) = pre @ line\<lparr>quantity := n\<rparr> # post"
    by (simp add: assign_found_split)
  ultimately show "cart_items (updateQuantity itemId n cm) = pre @ line\<lparr>quantity := n\<rparr> # post"
    using a by (simp add: updateQuantity_def saveToStorage_def)
qed

theorem updateQuantity_zero_is_removeItem_witness:
  "cart_items (updateQuantity 0 (- 2) (addItem borscht emptyCart)) = []
   \<and> cart_items (removeItem 0 (addItem borscht emptyCart)) = []
   \<and> cart_items (updateQuantity 0 7 (addItem borscht emptyCart)) = [(newLine borscht)\<lparr>quantity := 7\<rparr>]"
proof -
  have c: "cart_items (addItem borscht emptyCart) = [] @ newLine borscht # []"
    by (simp add: addItem_def emptyCart_def saveToStorage_def)
  have d: "dish_id (newLine borscht) = 0"
    by (simp add: dish_id_newLine borscht_def)
  have r: "cart_items (removeItem 0 (addItem borscht emptyCart)) = []"
    by (simp add: removeItem_def saveToStorage_def c d)
  from updateQuantity_zero_is_removeItem
    [of 0 "addItem borscht emptyCart" "- 2" "[]" "newLine borscht" "[]"] r
  have "cart_items (updateQuantity 0 (- 2) (addItem borscht emptyCart)) = []" by simp
  moreover from updateQuantity_zero_is_removeItem
    [of 0 "addItem borscht emptyCart" 7 "[]" "newLine borscht" "[]"] c d
  have "cart_items (updateQuantity 0 7 (addItem borscht emptyCart)) = [(newLine borscht)\<lparr>quantity := 7\<rparr>]"
    by simp
  ultimately show ?thesis using r by simp
qed

section \<open>Identity store: a failed login\<close>

text \<open>
  C8. For every roster and every session state, a \<^verbatim>\<open>login(email, password)\<close> call that
  fails, because no user of the roster has exactly that email or because the password is
  not the constant \<^verbatim>\<open>'password'\<close>, returns \<^verbatim>\<open>false\<close> and leaves the whole state of the
  manager as it was: the session user (signed in or not), the stored session and the
  store's write log.
\<close>

theorem login_failure_keeps_session:
  "(\<forall>u\<in>set (users um). email u \<noteq> em) \<or> password \<noteq> ''password'' \<Longrightarrow>
   login em password um = (False, um)"
proof (cases "findItem (users um) (\<lambda>u. email u = em)")
  case None
  then show ?thesis by (simp add: login_def)
next
  case (Some user)
  assume "(\<forall>u\<in>set (users um). email u \<noteq> em) \<or> password \<noteq> ''password''"
  moreover from Some have "\<not> (\<forall>u\<in>set (users um). email u \<noteq> em)"
    using findItem_Some_holds by fastforce
  ultimately have "password \<noteq> ''password''" by blast
  with Some show ?thesis by (simp add: login_def)
qed

theorem login_failure_keeps_session_witness:
  "login ''admin@sibsiu.ru'' ''wrong'' ((sampleUsers [])\<lparr>currentUser := Some testStudent\<rparr>)
     = (False, (sampleUsers [])\<lparr>currentUser := Some testStudent\<rparr>)
   \<and> login ''nobody@sibsiu.ru'' ''password'' ((sampleUsers [])\<lparr>currentUser := Some testStudent\<rparr>)
     = (False, (sampleUsers [])\<lparr>currentUser := Some testStudent\<rparr>)"
proof -
  have a: "''wrong'' \<noteq> ''password''" by simp
  have b: "\<forall>u\<in>set (users ((sampleUsers [])\<lparr>currentUser := Some testStudent\<rparr>)).
             email u \<noteq> ''nobody@sibsiu.ru''"
    by (simp add: sampleUsers_def adminUser_def testStudent_def)
  from login_failure_keeps_session [OF disjI2, OF a]
       login_failure_keeps_session [OF disjI1, OF b]
  show ?thesis by simp
qed

section \<open>Order ledger: \<^verbatim>\<open>updateOrderStatus\<close>\<close>

lemma getAllOrders_absent_index:
  "\<forall>order\<in>set (getAllOrders um). order_id order \<noteq> orderId \<Longrightarrow>
   findIndex (getAllOrders um) (\<lambda>order. order_id order = orderId) = - 1"
  by (rule findIndex_absent) simp

lemma findIndex_from_present:
  "\<exists>x\<in>set xs. p x \<Longrightarrow> findIndex_from i xs p \<noteq> - 1"
  by (induction xs arbitrary: i) auto

lemma findIndex_present:
  "\<exists>x\<in>set xs. p x \<Longrightarrow> findIndex xs p \<noteq> - 1"
  by (simp add: findIndex_def findIndex_from_present)

text \<open>
  C3. For every stored order collection and every order id that matches no stored order,
  \<^verbatim>\<open>updateOrderStatus\<close> returns \<^verbatim>\<open>false\<close> and the state after the call is the state
  before it: the stored collection is the same and the write log has no new entry. The
  function has no failing branch. When the id matches a stored order it returns \<^verbatim>\<open>true\<close>.
\<close>

theorem updateOrderStatus_unknown_id:
  "((\<forall>order\<in>set (getAllOrders um). order_id order \<noteq> orderId) \<longrightarrow>
      updateOrderStatus orderId newStatus time um = (False, um))
   \<and> ((\<exists>order\<in>set (getAllOrders um). order_id order = orderId) \<longrightarrow>
      fst (updateOrderStatus orderId newStatus time um) = True)"
proof (intro conjI impI)
  assume "\<forall>order\<in>set (getAllOrders um). order_id order \<noteq> orderId"
  then have "findIndex (getAllOrders um) (\<lambda>order. order_id order = orderId) = - 1"
    by (rule getAllOrders_absent_index)
  then show "updateOrderStatus orderId newStatus time um = (False, um)"
    by (simp add: updateOrderStatus_def)
next
  assume "\<exists>order\<in>set (getAllOrders um). order_id order = orderId"
  then have "findIndex (getAllOrders um) (\<lambda>order. order_id order = orderId) \<noteq> - 1"
    by (rule findIndex_present)
  then show "fst (updateOrderStatus orderId newStatus time um) = True"
    by (simp add: updateOrderStatus_def Let_def)
qed

theorem updateOrderStatus_unknown_id_witness:
  "updateOrderStatus 9 ready (Some ''13:30'') (sampleUsers [sampleOrder 7 ''02.11.2026, 10:00:00'' pending])
     = (False, sampleUsers [sampleOrder 7 ''02.11.2026, 10:00:00'' pending])
   \<and> fst (updateOrderStatus 7 ready (Some ''13:30'')
        (sampleUsers [sampleOrder 7 ''02.11.2026, 10:00:00'' pending])) = True"
proof -
  have a: "\<forall>order\<in>set (getAllOrders (sampleUsers [sampleOrder 7 ''02.11.2026, 10:00:00'' pending])).
             order_id order \<noteq> 9"
    by (simp add: getAllOrders_def sampleUsers_def sampleOrder_def)
  have b: "\<exists>order\<in>set (getAllOrders (sampleUsers [sampleOrder 7 ''02.11.2026, 10:00:00'' pending])).
             order_id order = 7"
    by (simp add: getAllOrders_def sampleUsers_def sampleOrder_def)
  from updateOrderStatus_unknown_id
    [of "sampleUsers [sampleOrder 7 ''02.11.2026, 10:00:00'' pending]" 9 ready "Some ''13:30''"] a
  have "updateOrderStatus 9 ready (Some ''13:30'') (sampleUsers [sampleOrder 7 ''02.11.2026, 10:00:00'' pending])
     = (False, sampleUsers [sampleOrder 7 ''02.11.2026, 10:00:00'' pending])"
    by blast
  moreover from updateOrderStatus_unknown_id
    [of "sampleUsers [sampleOrder 7 ''02.11.2026, 10:00:00'' pending]" 7 ready "Some ''13:30''"] b
  have "fst (updateOrderStatus 7 ready (Some ''13:30'')
        (sampleUsers [sampleOrder 7 ''02.11.2026, 10:00:00'' pending])) = True"
    by blast
  ultimately show ?thesis by simp
qed

lemma updateOrderStatus_found:
  assumes "getAllOrders um = pre @ order # post"
    and "\<forall>x\<in>set pre. order_id x \<noteq> orderId"
    and "order_id order = orderId"
  shows "updateOrderStatus orderId newStatus time um =
     (True, um\<lparr>stored_orders :=
                 Some (pre @ order\<lparr>status := newStatus,
                         estimatedTime := (if truthy time then time else estimatedTime order)\<rparr> # post),
               store_writes := store_writes um @ [''orders'']\<rparr>)"
proof -
  have "findIndex (pre @ order # post) (\<lambda>order. order_id order = orderId) = int (length pre)"
    using assms(2,3) by (simp add: findIndex_split)
  then show ?thesis
    using assms(1) by (simp add: updateOrderStatus_def Let_def)
qed

text \<open>
  C9. When the id matches a stored order (the first one with that id, \<open>order\<close> below) and
  the time argument is the empty string, \<^verbatim>\<open>updateOrderStatus\<close> returns \<^verbatim>\<open>true\<close>, stores the
  collection with the status of that order overwritten and with its \<^verbatim>\<open>estimatedTime\<close> as
  it was. For any time argument, the stored \<^verbatim>\<open>estimatedTime\<close> becomes the argument
  exactly when the argument is a non-empty string; an absent or empty argument leaves it.
\<close>

theorem updateOrderStatus_empty_time:
  assumes "getAllOrders um = pre @ order # post"
    and "\<forall>x\<in>set pre. order_id x \<noteq> orderId"
    and "order_id order = orderId"
  shows "updateOrderStatus orderId newStatus (Some '''') um =
           (True, um\<lparr>stored_orders := Some (pre @ order\<lparr>status := newStatus\<rparr> # post),
                     store_writes := store_writes um @ [''orders'']\<rparr>)
         \<and> (\<exists>order' um'. updateOrderStatus orderId newStatus time um = (True, um')
              \<and> getAllOrders um' = pre @ order' # post
              \<and> status order' = newStatus
              \<and> estimatedTime order' = (if time = None \<or> time = Some '''' then estimatedTime order else time))"
proof
  show "updateOrderStatus orderId newStatus (Some '''') um =
           (True, um\<lparr>stored_orders := Some (pre @ order\<lparr>status := newStatus\<rparr> # post),
                     store_writes := store_writes um @ [''orders'']\<rparr>)"
    using updateOrderStatus_found [OF assms, of newStatus "Some ''''"] by simp
next
  have "truthy time \<longleftrightarrow> \<not> (time = None \<or> time = Some '''')"
    by (cases time) auto
  then show "\<exists>order' um'. updateOrderStatus orderId newStatus time um = (True, um')
              \<and> getAllOrders um' = pre @ order' # post
              \<and> status order' = newStatus
              \<and> estimatedTime order' = (if time = None \<or> time = Some '''' then estimatedTime order else time)"
    using updateOrderStatus_found [OF assms, of newStatus time]
    by (auto simp: getAllOrders_def)
qed

theorem updateOrderStatus_empty_time_witness:
  "map estimatedTime (getAllOrders (snd (updateOrderStatus 7 ready (Some '''')
      (sampleUsers [sampleOrder 7 ''02.11.2026, 10:00:00'' pending])))) = [Some ''12:00'']
   \<and> map status (getAllOrders (snd (updateOrderStatus 7 ready (Some '''')
      (sampleUsers [sampleOrder 7 ''02.11.2026, 10:00:00'' pending])))) = [ready]
   \<and> fst (updateOrderStatus 7 ready (Some '''')
      (sampleUsers [sampleOrder 7 ''02.11.2026, 10:00:00'' pending])) = True"
proof -
  have a: "getAllOrders (sampleUsers [sampleOrder 7 ''02.11.2026, 10:00:00'' pending])
           = [] @ sampleOrder 7 ''02.11.2026, 10:00:00'' pending # []"
    by (simp add: getAllOrders_def sampleUsers_def)
  have b: "\<forall>x\<in>set []. order_id x \<noteq> (7::int)" by simp
  have c: "order_id (sampleOrder 7 ''02.11.2026, 10:00:00'' pending) = 7"
    by (simp add: sampleOrder_def)
  from updateOrderStatus_empty_time [OF a b c, of ready None]
  show ?thesis by (simp add: getAllOrders_def sampleOrder_def)
qed

section \<open>Order state machine in the admin view\<close>

text \<open>
  What an admin action does to the first stored order with the given id, for every button
  the view renders for it and every answer to the dialogs: the status stays, or moves
  along one of the five arrows of the state machine, or the order was \<^verbatim>\<open>ready\<close> and
  \<^verbatim>\<open>set_time\<close> made it \<^verbatim>\<open>preparing\<close>.
\<close>

lemma handleOrderAction_found:
  assumes "getAllOrders um = pre @ order # post"
    and "\<forall>x\<in>set pre. order_id x \<noteq> orderId"
    and "order_id order = orderId"
    and "action \<in> set (renderStatusButtons (status order))"
  shows "\<exists>order'. getAllOrders (handleOrderAction orderId (Some action) confirmed time um)
           = pre @ order' # post
         \<and> (status order' = status order
            \<or> (status order, status order') \<in>
                 {(pending, preparing), (pending, cancelled), (preparing, ready),
                  (preparing, cancelled), (ready, completed)}
            \<or> (action = ''set_time'' \<and> status order = ready \<and> status order' = preparing))"
proof -
  note upd = updateOrderStatus_found [OF assms(1,2,3)]
  show ?thesis
  proof (cases "status order")
    case pending
    with assms(1,4) show ?thesis
      by (auto simp: renderStatusButtons_def handleOrderAction_def upd getAllOrders_def)
  next
    case preparing
    with assms(1,4) show ?thesis
      by (auto simp: renderStatusButtons_def handleOrderAction_def upd getAllOrders_def)
  next
    case ready
    with assms(1,4) show ?thesis
      by (auto simp: renderStatusButtons_def handleOrderAction_def upd getAllOrders_def)
  next
    case completed
    with assms(4) show ?thesis by (simp add: renderStatusButtons_def)
  next
    case cancelled
    with assms(4) show ?thesis by (simp add: renderStatusButtons_def)
  qed
qed

text \<open>
  C1. The claim is that an admin action can move a \<^verbatim>\<open>ready\<close> order to \<^verbatim>\<open>completed\<close> only.
  The admin view renders the button \<^verbatim>\<open>set_time\<close> for a \<^verbatim>\<open>ready\<close> order, and its handler
  calls \<^verbatim>\<open>updateOrderStatus(orderId, 'preparing', time)\<close>: on a stored order 7 with status
  \<^verbatim>\<open>ready\<close>, the action with the time \<^verbatim>\<open>12:30\<close> leaves the order with status
  \<^verbatim>\<open>preparing\<close>.
\<close>

theorem set_time_moves_ready_to_preparing:
  "''set_time'' \<in> set (renderStatusButtons ready)
   \<and> map status (getAllOrders (sampleUsers [sampleOrder 7 ''02.11.2026, 10:00:00'' ready])) = [ready]
   \<and> map status (getAllOrders (handleOrderAction 7 (Some ''set_time'') False (Some ''12:30'')
        (sampleUsers [sampleOrder 7 ''02.11.2026, 10:00:00'' ready]))) = [preparing]"
  by (simp add: renderStatusButtons_def handleOrderAction_def updateOrderStatus_def
      getAllOrders_def sampleUsers_def sampleOrder_def findIndex_def Let_def)

section \<open>Catalog store: \<^verbatim>\<open>addMenuItem\<close> and the ids it hands out\<close>

lemma addMenuItem_fields:
  "menu_items (addMenuItem item m) = menu_items m @ [next_ref m]"
  "allDishes (addMenuItem item m) = allDishes m @ [next_ref m]"
  "next_ref (addMenuItem item m) = Suc (next_ref m)"
  "heap (addMenuItem item m) =
     (heap m)(next_ref m := item\<lparr>dish_id := generateId m, isActive := Some True\<rparr>)"
  by (simp_all add: addMenuItem_def Let_def saveMenuToStorage_def saveAllDishesToStorage_def)

lemma js_add_one_exact: "x < 2 ^ 53 \<Longrightarrow> js_add_one x = x + 1"
  by (simp add: js_add_one_def)

lemma maxId_archive: "maxId m = Max (set (archive_ids m @ [0]))"
  by (simp add: maxId_def archive_ids_def)

lemma maxId_ge: "i \<in> set (archive_ids m) \<Longrightarrow> i \<le> maxId m"
  unfolding maxId_archive by (intro Max_ge) simp_all

lemma maxId_cases: "maxId m = 0 \<or> maxId m \<in> set (archive_ids m)"
proof -
  have "Max (set (archive_ids m @ [0])) \<in> set (archive_ids m @ [0])"
    by (intro Max_in) simp_all
  then show ?thesis unfolding maxId_archive by auto
qed

lemma maxId_nonneg: "0 \<le> maxId m"
  unfolding maxId_archive by (intro Max_ge) simp_all

lemma maxId_bound: "\<forall>i\<in>set (archive_ids m). i < b \<Longrightarrow> 0 < b \<Longrightarrow> maxId m < b"
  using maxId_cases [of m] by auto

lemma generateId_exact:
  "\<forall>i\<in>set (archive_ids m). i < 2 ^ 53 \<Longrightarrow> generateId m = maxId m + 1"
proof -
  assume "\<forall>i\<in>set (archive_ids m). i < 2 ^ 53"
  then have "maxId m < 2 ^ 53" by (rule maxId_bound) simp
  then show ?thesis by (simp add: generateId_def js_add_one_exact)
qed

lemma generateId_greater:
  assumes "\<forall>i\<in>set (archive_ids m). i < 2 ^ 53"
  shows "\<forall>i\<in>set (archive_ids m). i < generateId m"
proof
  fix i assume "i \<in> set (archive_ids m)"
  then have "i \<le> maxId m" by (rule maxId_ge)
  with generateId_exact [OF assms] show "i < generateId m" by simp
qed

lemma generateId_empty: "allDishes m = [] \<Longrightarrow> generateId m = 1"
  by (simp add: generateId_def maxId_def js_add_one_def)

lemma maxId_nonempty:
  assumes "allDishes m \<noteq> []" and "\<forall>i\<in>set (archive_ids m). 0 \<le> i"
  shows "maxId m = Max (set (archive_ids m))"
proof -
  from assms(1) have ne: "set (archive_ids m) \<noteq> {}" by (simp add: archive_ids_def)
  have "Max (set (archive_ids m @ [0])) = max 0 (Max (set (archive_ids m)))"
    using ne by simp
  moreover from ne assms(2) have "0 \<le> Max (set (archive_ids m))"
    by (meson List.finite_set Max_in)
  ultimately show ?thesis unfolding maxId_archive by simp
qed

lemma archive_ids_addMenuItem:
  "allocated m \<Longrightarrow> archive_ids (addMenuItem item m) = archive_ids m @ [generateId m]"
  by (auto simp: allocated_def archive_ids_def addMenuItem_fields)

lemma allocated_addMenuItem: "allocated m \<Longrightarrow> allocated (addMenuItem item m)"
  by (auto simp: allocated_def addMenuItem_fields)

lemma maxId_addMenuItem:
  assumes "allocated m" and "maxId m < 2 ^ 53"
  shows "maxId (addMenuItem item m) = maxId m + 1"
proof -
  have g: "generateId m = maxId m + 1"
    using assms(2) by (simp add: generateId_def js_add_one_exact)
  have "maxId (addMenuItem item m) = Max (insert (generateId m) (set (archive_ids m @ [0])))"
    unfolding maxId_archive
    by (simp add: archive_ids_addMenuItem [OF assms(1)] insert_commute)
  also have "\<dots> = max (generateId m) (Max (set (archive_ids m @ [0])))"
    by (intro Max_insert) simp_all
  also have "\<dots> = max (generateId m) (maxId m)"
    by (simp only: maxId_archive)
  finally show ?thesis using g by simp
qed

lemma removeMenuItem_archive:
  "archive_ids (removeMenuItem itemId m) = archive_ids m"
  "allDishes (removeMenuItem itemId m) = allDishes m"
  "next_ref (removeMenuItem itemId m) = next_ref m"
  by (auto simp: archive_ids_def removeMenuItem_def Let_def saveMenuToStorage_def)

lemma addExistingDish_archive:
  assumes "allocated m"
  shows "archive_ids (addExistingDish dishId m) = archive_ids m"
    and "allocated (addExistingDish dishId m)"
  using assms
  by (auto simp: archive_ids_def allocated_def addExistingDish_def Let_def
        saveMenuToStorage_def split: option.split)

lemma allocated_removeMenuItem: "allocated m \<Longrightarrow> allocated (removeMenuItem itemId m)"
  by (simp add: allocated_def removeMenuItem_archive)

lemma keep_op_archive:
  assumes "allocated m" and "\<not> isDelete op"
  shows "allocated (applyMenuOp op m)"
    and "handedOut op m = [] \<Longrightarrow> maxId (applyMenuOp op m) = maxId m"
  using assms
  by (cases op; simp add: allocated_addMenuItem allocated_removeMenuItem maxId_archive
        removeMenuItem_archive addExistingDish_archive)+

lemma handedOut_cases:
  "\<not> isDelete op \<Longrightarrow>
   handedOut op m = [] \<or> (\<exists>item. op = AddMenuItem item \<and> handedOut op m = [generateId m])"
  by (cases op) simp_all

lemma generatedIds_increasing:
  assumes "allocated m"
    and "\<forall>op\<in>set ops. \<not> isDelete op"
    and "maxId m + int (length ops) \<le> 2 ^ 53"
  shows "sorted_wrt (<) (generatedIds ops m) \<and> (\<forall>i\<in>set (generatedIds ops m). maxId m < i)"
  using assms
proof (induction ops arbitrary: m)
  case Nil
  then show ?case by simp
next
  case (Cons op ops)
  let ?m' = "applyMenuOp op m"
  from Cons.prems have nd: "\<not> isDelete op" and rest: "\<forall>op\<in>set ops. \<not> isDelete op"
    by simp_all
  have len: "int (length (op # ops)) = int (length ops) + 1" "0 \<le> int (length ops)"
    by simp_all
  from Cons.prems(3) len have b: "maxId m < 2 ^ 53"
    and b': "maxId m + 1 + int (length ops) \<le> 2 ^ 53"
    by linarith+
  have al: "allocated ?m'" using Cons.prems(1) nd by (rule keep_op_archive(1))
  from handedOut_cases [OF nd, of m] show ?case
  proof
    assume h: "handedOut op m = []"
    then have M': "maxId ?m' = maxId m"
      using keep_op_archive(2) [OF Cons.prems(1) nd] by simp
    from b' len have "maxId m + int (length ops) \<le> 2 ^ 53" by linarith
    with Cons.IH [OF al rest] M' h show ?thesis by simp
  next
    assume "\<exists>item. op = AddMenuItem item \<and> handedOut op m = [generateId m]"
    then obtain item where op: "op = AddMenuItem item" and h: "handedOut op m = [generateId m]"
      by blast
    have g: "generateId m = maxId m + 1"
      using b by (simp add: generateId_def js_add_one_exact)
    have M': "maxId ?m' = maxId m + 1"
      using maxId_addMenuItem [OF Cons.prems(1) b] op by simp
    from Cons.IH [OF al rest] b' M'
    have ih: "sorted_wrt (<) (generatedIds ops ?m')"
      "\<forall>i\<in>set (generatedIds ops ?m'). maxId m + 1 < i"
      by simp_all
    with h g show ?thesis by auto
  qed
qed

lemma archive_ids_three:
  assumes "allDishes m = []"
  shows "archive_ids (addMenuItem c (addMenuItem b (addMenuItem a m))) = [1, 2, 3]"
proof -
  let ?m1 = "addMenuItem a m"
  let ?m2 = "addMenuItem b ?m1"
  have g1: "generateId m = 1" using assms by (rule generateId_empty)
  have a1: "archive_ids ?m1 = [1]"
    using assms g1 by (simp add: archive_ids_def addMenuItem_fields)
  have g2: "generateId ?m1 = 2"
    using a1 by (simp add: generateId_def maxId_archive js_add_one_def)
  have a2: "archive_ids ?m2 = [1, 2]"
    using assms g1 g2 by (simp add: archive_ids_def addMenuItem_fields)
  have g3: "generateId ?m2 = 3"
    using a2 by (simp add: generateId_def maxId_archive js_add_one_def)
  show ?thesis
    using assms g1 g2 g3 by (simp add: archive_ids_def addMenuItem_fields)
qed

text \<open>
  C2, as the code has it. \<^verbatim>\<open>addMenuItem\<close> allocates one object, appends it to the active
  list and to the archive, and gives it the draft's fields, \<^verbatim>\<open>isActive = true\<close> and the id
  \<open>max (archive ids, 0) + 1\<close> computed on doubles. This is 1 for an empty archive. While
  every archive id is below \<open>2 ^ 53\<close> the sum is exact and larger than every id of the
  archive, so no id present there is used again; for a non-empty archive of non-negative
  ids it is the largest archive id plus 1. In a session that starts in a state with
  allocated references, deletes no dish permanently and stays below \<open>2 ^ 53\<close>, the ids
  handed out are strictly increasing and larger than every id the archive had at the
  start, whatever is removed from or restored to the active list in between. Three dishes
  added to an empty archive get the ids 1, 2, 3 in this order.
\<close>

theorem addMenuItem_fresh_id:
  "menu_items (addMenuItem item m) = menu_items m @ [next_ref m]
   \<and> allDishes (addMenuItem item m) = allDishes m @ [next_ref m]
   \<and> heap (addMenuItem item m) (next_ref m)
       = item\<lparr>dish_id := js_add_one (Max (set (archive_ids m @ [0]))), isActive := Some True\<rparr>
   \<and> (allDishes m = [] \<longrightarrow> dish_id (heap (addMenuItem item m) (next_ref m)) = 1)
   \<and> ((\<forall>i\<in>set (archive_ids m). i < 2 ^ 53) \<longrightarrow>
        dish_id (heap (addMenuItem item m) (next_ref m)) = Max (set (archive_ids m @ [0])) + 1
        \<and> (\<forall>i\<in>set (archive_ids m). i < dish_id (heap (addMenuItem item m) (next_ref m))))
   \<and> (allDishes m \<noteq> [] \<and> (\<forall>i\<in>set (archive_ids m). 0 \<le> i \<and> i < 2 ^ 53) \<longrightarrow>
        dish_id (heap (addMenuItem item m) (next_ref m)) = Max (set (archive_ids m)) + 1)
   \<and> (allocated m \<and> (\<forall>op\<in>set ops. \<not> isDelete op)
        \<and> Max (set (archive_ids m @ [0])) + int (length ops) \<le> 2 ^ 53 \<longrightarrow>
        sorted_wrt (<) (generatedIds ops m)
        \<and> (\<forall>i\<in>set (generatedIds ops m). \<forall>j\<in>set (archive_ids m). j < i))
   \<and> (allDishes m = [] \<longrightarrow>
        generatedIds [AddMenuItem a, AddMenuItem b, AddMenuItem c] m = [1, 2, 3]
        \<and> archive_ids (addMenuItem c (addMenuItem b (addMenuItem a m))) = [1, 2, 3])"
proof (intro conjI impI)
  show "heap (addMenuItem item m) (next_ref m)
       = item\<lparr>dish_id := js_add_one (Max (set (archive_ids m @ [0]))), isActive := Some True\<rparr>"
    by (simp add: addMenuItem_fields generateId_def maxId_def archive_ids_def)
next
  assume "allDishes m = []"
  then show "dish_id (heap (addMenuItem item m) (next_ref m)) = 1"
    by (simp add: addMenuItem_fields generateId_empty)
next
  assume b: "\<forall>i\<in>set (archive_ids m). i < 2 ^ 53"
  have "dish_id (heap (addMenuItem item m) (next_ref m)) = generateId m"
    by (simp add: addMenuItem_fields)
  with generateId_exact [OF b] generateId_greater [OF b]
  show "dish_id (heap (addMenuItem item m) (next_ref m)) = Max (set (archive_ids m @ [0])) + 1"
    and "\<forall>i\<in>set (archive_ids m). i < dish_id (heap (addMenuItem item m) (next_ref m))"
    by (simp_all only: maxId_archive)
next
  assume a: "allDishes m \<noteq> [] \<and> (\<forall>i\<in>set (archive_ids m). 0 \<le> i \<and> i < 2 ^ 53)"
  then have "generateId m = maxId m + 1" by (intro generateId_exact) simp
  moreover from a have "maxId m = Max (set (archive_ids m))" by (intro maxId_nonempty) simp_all
  ultimately show "dish_id (heap (addMenuItem item m) (next_ref m)) = Max (set (archive_ids m)) + 1"
    by (simp add: addMenuItem_fields)
next
  assume a: "allocated m \<and> (\<forall>op\<in>set ops. \<not> isDelete op)
        \<and> Max (set (archive_ids m @ [0])) + int (length ops) \<le> 2 ^ 53"
  then have "maxId m + int (length ops) \<le> 2 ^ 53" by (simp only: maxId_archive)
  with a have inc: "sorted_wrt (<) (generatedIds ops m)"
    "\<forall>i\<in>set (generatedIds ops m). maxId m < i"
    using generatedIds_increasing [of m ops] by simp_all
  from inc(1) show "sorted_wrt (<) (generatedIds ops m)" .
  show "\<forall>i\<in>set (generatedIds ops m). \<forall>j\<in>set (archive_ids m). j < i"
  proof (intro ballI)
    fix i j assume "i \<in> set (generatedIds ops m)" "j \<in> set (archive_ids m)"
    with inc(2) maxId_ge [of j m] show "j < i" by fastforce
  qed
next
  assume e: "allDishes m = []"
  then show "archive_ids (addMenuItem c (addMenuItem b (addMenuItem a m))) = [1, 2, 3]"
    by (rule archive_ids_three)
  let ?m1 = "addMenuItem a m"
  let ?m2 = "addMenuItem b ?m1"
  have g1: "generateId m = 1" using e by (rule generateId_empty)
  have a1: "archive_ids ?m1 = [1]"
    using e g1 by (simp add: archive_ids_def addMenuItem_fields)
  have g2: "generateId ?m1 = 2"
    using a1 by (simp add: generateId_def maxId_archive js_add_one_def)
  have a2: "archive_ids ?m2 = [1, 2]"
    using e g1 g2 by (simp add: archive_ids_def addMenuItem_fields)
  have g3: "generateId ?m2 = 3"
    using a2 by (simp add: generateId_def maxId_archive js_add_one_def)
  show "generatedIds [AddMenuItem a, AddMenuItem b, AddMenuItem c] m = [1, 2, 3]"
    by (simp add: g1 g2 g3)
qed (simp_all add: addMenuItem_fields)

theorem addMenuItem_fresh_id_witness:
  "generatedIds [AddMenuItem borscht, RemoveMenuItem 1, AddMenuItem tea, AddExistingDish 1,
                 AddMenuItem borscht] emptyMenu = [1, 2, 3]
   \<and> archive_ids (addMenuItem borscht (addMenuItem tea (addMenuItem borscht emptyMenu))) = [1, 2, 3]
   \<and> dish_id (heap (addMenuItem tea emptyMenu) 0) = 1
   \<and> dish_id (heap (addMenuItem borscht (addMenuItem tea emptyMenu)) 1) = 2"
proof -
  let ?ops = "[AddMenuItem borscht, RemoveMenuItem 1, AddMenuItem tea, AddExistingDish 1,
               AddMenuItem borscht]"
  have e: "allDishes emptyMenu = []" "next_ref emptyMenu = 0" "archive_ids emptyMenu = []"
    "allocated emptyMenu"
    by (simp_all add: emptyMenu_def archive_ids_def allocated_def)
  have n: "allDishes (addMenuItem tea emptyMenu) \<noteq> []"
          "next_ref (addMenuItem tea emptyMenu) = 1"
    by (simp_all add: addMenuItem_fields e)
  have one: "dish_id (heap (addMenuItem tea emptyMenu) 0) = 1"
    using addMenuItem_fresh_id
      [of tea emptyMenu, THEN conjunct2, THEN conjunct2, THEN conjunct2, THEN conjunct1] e
    by simp
  have ids: "archive_ids (addMenuItem tea emptyMenu) = [1]"
    using one by (simp add: archive_ids_def addMenuItem_fields e)
  have two: "dish_id (heap (addMenuItem borscht (addMenuItem tea emptyMenu)) 1) = 2"
    using addMenuItem_fresh_id
      [of borscht "addMenuItem tea emptyMenu", THEN conjunct2, THEN conjunct2, THEN conjunct2,
       THEN conjunct2, THEN conjunct2, THEN conjunct1] n ids
    by simp
  have three: "archive_ids (addMenuItem borscht (addMenuItem tea (addMenuItem borscht emptyMenu))) = [1, 2, 3]"
    using addMenuItem_fresh_id
      [of _ emptyMenu _ borscht tea borscht, THEN conjunct2, THEN conjunct2, THEN conjunct2,
       THEN conjunct2, THEN conjunct2, THEN conjunct2, THEN conjunct2] e
    by simp
  have g1: "generateId emptyMenu = 1" using e(1) by (rule generateId_empty)
  have s1: "archive_ids (addMenuItem borscht emptyMenu) = [1]"
    "allocated (addMenuItem borscht emptyMenu)"
    using e g1 by (simp_all add: archive_ids_addMenuItem allocated_addMenuItem)
  let ?m2 = "removeMenuItem 1 (addMenuItem borscht emptyMenu)"
  have s2: "archive_ids ?m2 = [1]" "allocated ?m2"
    using s1 by (simp_all add: removeMenuItem_archive allocated_removeMenuItem)
  have g2: "generateId ?m2 = 2"
    using s2 by (simp add: generateId_def maxId_archive js_add_one_def)
  let ?m3 = "addMenuItem tea ?m2"
  have s3: "archive_ids ?m3 = [1, 2]" "allocated ?m3"
    using s2 g2 by (simp_all add: archive_ids_addMenuItem allocated_addMenuItem)
  let ?m4 = "addExistingDish 1 ?m3"
  have s4: "archive_ids ?m4 = [1, 2]"
    using s3 by (simp add: addExistingDish_archive)
  have g3: "generateId ?m4 = 3"
    using s4 by (simp add: generateId_def maxId_archive js_add_one_def)
  have gen: "generatedIds ?ops emptyMenu = [1, 2, 3]"
    by (simp add: g1 g2 g3)
  have hyp: "allocated emptyMenu \<and> (\<forall>op\<in>set ?ops. \<not> isDelete op)
        \<and> Max (set (archive_ids emptyMenu @ [0])) + int (length ?ops) \<le> 2 ^ 53"
    by (simp add: e)
  from addMenuItem_fresh_id
      [of _ emptyMenu ?ops, THEN conjunct2, THEN conjunct2, THEN conjunct2,
       THEN conjunct2, THEN conjunct2, THEN conjunct2, THEN conjunct1, rule_format, OF hyp]
  have "sorted_wrt (<) (generatedIds ?ops emptyMenu)" by (rule conjunct1)
  with gen one two three show ?thesis by simp
qed

text \<open>
  The claim as stated promises strictly increasing ids and no reuse without these
  conditions. The generator only looks at the archive as it is: after two dishes are
  added to the empty menu and the second is deleted permanently, the next dish gets the
  id 2 again, so the ids handed out are 1, 2, 2. And for an archive that holds the id
  \<open>2 ^ 53\<close> the double sum \<open>2 ^ 53 + 1\<close> is \<open>2 ^ 53\<close>: the id handed out is one the archive
  holds.
\<close>

theorem generated_ids_repeat_counterexample:
  "generatedIds [AddMenuItem borscht, AddMenuItem tea, DeletePermanent 2, AddMenuItem borscht]
     emptyMenu = [1, 2, 2]
   \<and> archive_ids bigArchive = [2 ^ 53]
   \<and> generateId bigArchive = 2 ^ 53"
proof -
  have e: "allDishes emptyMenu = []" "next_ref emptyMenu = 0" "menu_items emptyMenu = []"
    by (simp_all add: emptyMenu_def)
  have g1: "generateId emptyMenu = 1" using e(1) by (rule generateId_empty)
  let ?m1 = "addMenuItem borscht emptyMenu"
  have m1: "allDishes ?m1 = [0]" "menu_items ?m1 = [0]" "next_ref ?m1 = 1"
    "dish_id (heap ?m1 0) = 1"
    by (simp_all add: addMenuItem_fields e g1)
  have g2: "generateId ?m1 = 2"
    by (simp add: generateId_def maxId_def m1 js_add_one_def)
  let ?m2 = "addMenuItem tea ?m1"
  have m2: "allDishes ?m2 = [0, Suc 0]" "menu_items ?m2 = [0, Suc 0]"
    "dish_id (heap ?m2 0) = 1" "dish_id (heap ?m2 (Suc 0)) = 2"
    by (simp_all add: addMenuItem_fields e g1 g2)
  let ?m3 = "deletePermanent 2 ?m2"
  have m3: "allDishes ?m3 = [0]" "dish_id (heap ?m3 0) = 1"
    by (simp_all add: deletePermanent_def Let_def findIndex_def m2
          saveMenuToStorage_def saveAllDishesToStorage_def)
  have g3: "generateId ?m3 = 2"
    by (simp add: generateId_def maxId_def m3 js_add_one_def)
  have big: "archive_ids bigArchive = [2 ^ 53]"
    by (simp add: bigArchive_def archive_ids_def emptyMenu_def borscht_def)
  have gb: "generateId bigArchive = 2 ^ 53"
    by (simp add: generateId_def maxId_archive big js_add_one_def)
  from g1 g2 g3 big gb show ?thesis by simp
qed

section \<open>Catalog store: \<^verbatim>\<open>removeMenuItem\<close> and restoring\<close>

lemma removeMenuItem_found:
  assumes "menu_items m = pre @ r # post"
    and "\<forall>x\<in>set pre. dish_id (heap m x) \<noteq> itemId"
    and "dish_id (heap m r) = itemId"
  shows "removeMenuItem itemId m =
     m\<lparr>heap := (heap m)(r := (heap m r)\<lparr>isActive := Some False\<rparr>),
       menu_items := pre @ post,
       stored_menuItems :=
         Some (map ((heap m)(r := (heap m r)\<lparr>isActive := Some False\<rparr>)) (pre @ post)),
       filteredItems := pre @ post\<rparr>"
proof -
  have "findIndex (pre @ r # post) (\<lambda>item. dish_id (heap m item) = itemId) = int (length pre)"
    using assms(2,3) by (simp add: findIndex_split)
  then show ?thesis
    using assms(1) by (simp add: removeMenuItem_def Let_def saveMenuToStorage_def)
qed

lemma addExistingDish_restores:
  assumes "findItem (allDishes m) (\<lambda>d. dish_id (heap m d) = dishId) = Some dish"
    and "\<not> isDishActive dishId m"
  shows "menu_items (addExistingDish dishId m) = menu_items m @ [next_ref m]"
    and "heap (addExistingDish dishId m) (next_ref m) = (heap m dish)\<lparr>isActive := Some True\<rparr>"
    and "allDishes (addExistingDish dishId m) = allDishes m"
  using assms by (simp_all add: addExistingDish_def Let_def saveMenuToStorage_def)

lemma findItem_present: "\<exists>x\<in>set xs. p x \<Longrightarrow> \<exists>y. findItem xs p = Some y"
  by (cases "findItem xs p") (auto simp: findItem_None_iff)

lemma removeMenuItem_restorable:
  assumes s: "menu_items m = pre @ r # post"
      "\<forall>x\<in>set pre. dish_id (heap m x) \<noteq> itemId" "dish_id (heap m r) = itemId"
    and arch: "itemId \<in> set (archive_ids m)"
    and single: "itemId \<notin> set (map (\<lambda>x. dish_id (heap m x)) (pre @ post))"
  shows "\<exists>d\<in>set (allDishes m).
           dish_id (heap m d) = itemId
         \<and> d \<in> set (getInactiveDishes (removeMenuItem itemId m))
         \<and> menu_items (addExistingDish itemId (removeMenuItem itemId m))
             = pre @ post @ [next_ref m]
         \<and> heap (addExistingDish itemId (removeMenuItem itemId m)) (next_ref m)
             = (heap m d)\<lparr>isActive := Some True\<rparr>
         \<and> allDishes (addExistingDish itemId (removeMenuItem itemId m)) = allDishes m"
proof -
  let ?m' = "removeMenuItem itemId m"
  note eq = removeMenuItem_found [OF s]
  have ids: "\<And>x. dish_id (heap ?m' x) = dish_id (heap m x)"
    by (simp add: eq)
  have fields: "allDishes ?m' = allDishes m" "menu_items ?m' = pre @ post"
    "next_ref ?m' = next_ref m"
    by (simp_all add: eq)
  from arch have "\<exists>d\<in>set (allDishes ?m'). dish_id (heap ?m' d) = itemId"
    by (auto simp: archive_ids_def ids fields)
  from findItem_present [of "allDishes ?m'" "\<lambda>d. dish_id (heap ?m' d) = itemId", OF this]
  obtain d where f: "findItem (allDishes ?m') (\<lambda>d. dish_id (heap ?m' d) = itemId) = Some d"
    by (elim exE)
  from findItem_Some_holds [OF f] have d: "d \<in> set (allDishes m)" "dish_id (heap m d) = itemId"
    by (simp_all add: ids fields)
  from single have na: "\<not> isDishActive itemId ?m'"
    by (auto simp: isDishActive_def ids fields)
  from single d have inact: "d \<in> set (getInactiveDishes ?m')"
    by (auto simp: getInactiveDishes_def Let_def ids fields)
  have copy: "(heap ?m' d)\<lparr>isActive := Some True\<rparr> = (heap m d)\<lparr>isActive := Some True\<rparr>"
    by (simp add: eq)
  from addExistingDish_restores [OF f na] fields copy
  have "menu_items (addExistingDish itemId ?m') = pre @ post @ [next_ref m]"
    "heap (addExistingDish itemId ?m') (next_ref m) = (heap m d)\<lparr>isActive := Some True\<rparr>"
    "allDishes (addExistingDish itemId ?m') = allDishes m"
    by simp_all
  with d inact show ?thesis by blast
qed

text \<open>
  C4, as the code has it. For every dish id present in the active list,
  \<^verbatim>\<open>removeMenuItem(id)\<close> drops the first entry with that id from the active list and
  nothing else from it. The archive holds the same objects in the same order and the
  stored archive is not written. Every object keeps every field other than \<^verbatim>\<open>isActive\<close>
  (stated as: the objects before and after agree once \<^verbatim>\<open>isActive\<close> is blanked); every
  object other than the removed active entry keeps \<^verbatim>\<open>isActive\<close> too, and the removed
  entry's object has \<^verbatim>\<open>isActive = false\<close> afterwards. If the archive had the id before
  the call it has it afterwards. If moreover no other active entry carries the id, the
  dish can be restored: an archive entry with the id is among \<^verbatim>\<open>getInactiveDishes()\<close>, and
  \<^verbatim>\<open>addExistingDish(id)\<close> appends a copy of it to the active list, with \<^verbatim>\<open>isActive = true\<close>
  and every other field as in the archive before the removal, leaving the archive alone.
\<close>

theorem removeMenuItem_keeps_archive:
  assumes "itemId \<in> set (active_ids m)"
  shows "\<exists>pre r post.
           menu_items m = pre @ r # post
         \<and> (\<forall>x\<in>set pre. dish_id (heap m x) \<noteq> itemId)
         \<and> dish_id (heap m r) = itemId
         \<and> menu_items (removeMenuItem itemId m) = pre @ post
         \<and> allDishes (removeMenuItem itemId m) = allDishes m
         \<and> archive_ids (removeMenuItem itemId m) = archive_ids m
         \<and> stored_allDishes (removeMenuItem itemId m) = stored_allDishes m
         \<and> (\<forall>d. (heap (removeMenuItem itemId m) d)\<lparr>isActive := None\<rparr>
                  = (heap m d)\<lparr>isActive := None\<rparr>)
         \<and> (\<forall>d. d \<noteq> r \<longrightarrow> heap (removeMenuItem itemId m) d = heap m d)
         \<and> isActive (heap (removeMenuItem itemId m) r) = Some False
         \<and> (itemId \<in> set (archive_ids m) \<longrightarrow>
              itemId \<in> set (archive_ids (removeMenuItem itemId m)))
         \<and> (itemId \<in> set (archive_ids m)
              \<and> itemId \<notin> set (map (\<lambda>x. dish_id (heap m x)) (pre @ post)) \<longrightarrow>
              (\<exists>d\<in>set (allDishes m).
                 dish_id (heap m d) = itemId
               \<and> d \<in> set (getInactiveDishes (removeMenuItem itemId m))
               \<and> menu_items (addExistingDish itemId (removeMenuItem itemId m))
                   = pre @ post @ [next_ref m]
               \<and> heap (addExistingDish itemId (removeMenuItem itemId m)) (next_ref m)
                   = (heap m d)\<lparr>isActive := Some True\<rparr>
               \<and> allDishes (addExistingDish itemId (removeMenuItem itemId m)) = allDishes m))"
proof -
  from assms have "\<exists>x\<in>set (menu_items m). dish_id (heap m x) = itemId"
    by (auto simp: active_ids_def)
  from first_match_split [of "menu_items m" "\<lambda>x. dish_id (heap m x) = itemId", OF this]
  obtain pre r post where s: "menu_items m = pre @ r # post"
    "\<forall>x\<in>set pre. dish_id (heap m x) \<noteq> itemId" "dish_id (heap m r) = itemId"
    by (elim exE conjE)
  note eq = removeMenuItem_found [OF s]
  have a: "archive_ids (removeMenuItem itemId m) = archive_ids m"
    by (simp add: eq archive_ids_def)
  have b: "\<forall>d. (heap (removeMenuItem itemId m) d)\<lparr>isActive := None\<rparr>
                  = (heap m d)\<lparr>isActive := None\<rparr>"
    by (simp add: eq)
  have c: "\<forall>d. d \<noteq> r \<longrightarrow> heap (removeMenuItem itemId m) d = heap m d"
    by (simp add: eq)
  have d: "isActive (heap (removeMenuItem itemId m) r) = Some False"
    by (simp add: eq)
  have e: "menu_items (removeMenuItem itemId m) = pre @ post"
    "allDishes (removeMenuItem itemId m) = allDishes m"
    "stored_allDishes (removeMenuItem itemId m) = stored_allDishes m"
    by (simp_all add: eq)
  have f: "itemId \<in> set (archive_ids m) \<longrightarrow>
              itemId \<in> set (archive_ids (removeMenuItem itemId m))"
    by (simp only: a simp_thms)
  have g: "itemId \<in> set (archive_ids m)
              \<and> itemId \<notin> set (map (\<lambda>x. dish_id (heap m x)) (pre @ post)) \<longrightarrow>
              (\<exists>d\<in>set (allDishes m).
                 dish_id (heap m d) = itemId
               \<and> d \<in> set (getInactiveDishes (removeMenuItem itemId m))
               \<and> menu_items (addExistingDish itemId (removeMenuItem itemId m))
                   = pre @ post @ [next_ref m]
               \<and> heap (addExistingDish itemId (removeMenuItem itemId m)) (next_ref m)
                   = (heap m d)\<lparr>isActive := Some True\<rparr>
               \<and> allDishes (addExistingDish itemId (removeMenuItem itemId m)) = allDishes m)"
    using removeMenuItem_restorable [OF s] by blast
  show ?thesis
    apply (rule exI [of _ pre], rule exI [of _ r], rule exI [of _ post])
    apply (intro conjI)
    apply (rule s(1), rule s(2), rule s(3), rule e(1), rule e(2), rule a, rule e(3))
    apply (rule b, rule c, rule d, rule f, rule g)
    done
qed

theorem removeMenuItem_keeps_archive_witness:
  "1 \<in> set (active_ids (addMenuItem borscht emptyMenu))
   \<and> archive_ids (removeMenuItem 1 (addMenuItem borscht emptyMenu)) = [1]
   \<and> menu_items (removeMenuItem 1 (addMenuItem borscht emptyMenu)) = []
   \<and> 0 \<in> set (getInactiveDishes (removeMenuItem 1 (addMenuItem borscht emptyMenu)))
   \<and> menu_items (addExistingDish 1 (removeMenuItem 1 (addMenuItem borscht emptyMenu))) = [1]
   \<and> heap (addExistingDish 1 (removeMenuItem 1 (addMenuItem borscht emptyMenu))) 1
       = borscht\<lparr>dish_id := 1, isActive := Some True\<rparr>"
proof -
  let ?m = "addMenuItem borscht emptyMenu"
  have f: "menu_items ?m = [0]" "allDishes ?m = [0]" "next_ref ?m = 1"
    "heap ?m 0 = borscht\<lparr>dish_id := 1, isActive := Some True\<rparr>"
    by (simp_all add: addMenuItem_fields emptyMenu_def generateId_def maxId_def js_add_one_def)
  have a: "1 \<in> set (active_ids ?m)"
    by (simp add: active_ids_def f)
  have ids: "archive_ids ?m = [1]"
    by (simp add: archive_ids_def f)
  from removeMenuItem_keeps_archive [OF a] obtain pre r post where
    s: "menu_items ?m = pre @ r # post"
       "menu_items (removeMenuItem 1 ?m) = pre @ post"
       "archive_ids (removeMenuItem 1 ?m) = archive_ids ?m"
    and restore: "1 \<in> set (archive_ids ?m)
              \<and> 1 \<notin> set (map (\<lambda>x. dish_id (heap ?m x)) (pre @ post)) \<longrightarrow>
              (\<exists>d\<in>set (allDishes ?m).
                 dish_id (heap ?m d) = 1
               \<and> d \<in> set (getInactiveDishes (removeMenuItem 1 ?m))
               \<and> menu_items (addExistingDish 1 (removeMenuItem 1 ?m))
                   = pre @ post @ [next_ref ?m]
               \<and> heap (addExistingDish 1 (removeMenuItem 1 ?m)) (next_ref ?m)
                   = (heap ?m d)\<lparr>isActive := Some True\<rparr>
               \<and> allDishes (addExistingDish 1 (removeMenuItem 1 ?m)) = allDishes ?m)"
    by (elim exE conjE)
  from s(1) have pp: "pre = []" "post = []"
    by (simp_all add: f append_eq_Cons_conv Cons_eq_append_conv)
  from restore have "0 \<in> set (getInactiveDishes (removeMenuItem 1 ?m))
      \<and> menu_items (addExistingDish 1 (removeMenuItem 1 ?m)) = [1]
      \<and> heap (addExistingDish 1 (removeMenuItem 1 ?m)) 1 = (heap ?m 0)\<lparr>isActive := Some True\<rparr>"
    by (simp add: pp ids f)
  with s a ids pp show ?thesis by (simp add: f)
qed

text \<open>
  The claim as stated also promises that the \<^verbatim>\<open>isActive\<close> flag of the archive entry is
  the one before the call. After \<^verbatim>\<open>addMenuItem\<close> the archive entry and the active entry
  are one object, and the assignment \<^verbatim>\<open>this.items[itemIndex].isActive = false\<close> shows in
  the archive: a dish added to the empty menu and then removed has \<^verbatim>\<open>isActive = true\<close> in
  the archive before the removal and \<^verbatim>\<open>isActive = false\<close> after it.
\<close>

theorem removeMenuItem_archive_flag_counterexample:
  "1 \<in> set (active_ids (addMenuItem borscht emptyMenu))
   \<and> allDishes (addMenuItem borscht emptyMenu) = [0]
   \<and> allDishes (removeMenuItem 1 (addMenuItem borscht emptyMenu)) = [0]
   \<and> isActive (heap (addMenuItem borscht emptyMenu) 0) = Some True
   \<and> isActive (heap (removeMenuItem 1 (addMenuItem borscht emptyMenu)) 0) = Some False"
proof -
  have f: "menu_items (addMenuItem borscht emptyMenu) = [] @ 0 # []"
    "allDishes (addMenuItem borscht emptyMenu) = [0]"
    "heap (addMenuItem borscht emptyMenu) 0 = borscht\<lparr>dish_id := 1, isActive := Some True\<rparr>"
    by (simp_all add: addMenuItem_fields emptyMenu_def generateId_def maxId_def js_add_one_def)
  have d: "dish_id (heap (addMenuItem borscht emptyMenu) 0) = 1" by (simp add: f)
  have p: "\<forall>x\<in>set []. dish_id (heap (addMenuItem borscht emptyMenu) x) \<noteq> 1" by simp
  note eq = removeMenuItem_found [OF f(1) p d]
  show ?thesis by (simp add: eq f active_ids_def)
qed

section \<open>Admin order listing\<close>

lemma insertStable_tied:
  "\<forall>y\<in>set ys. SortCompare comparefn x y = 0 \<Longrightarrow> insertStable comparefn x ys = x # ys"
  by (cases ys) simp_all

lemma array_sort_tied:
  "\<forall>x\<in>set xs. \<forall>y\<in>set xs. SortCompare comparefn x y = 0 \<Longrightarrow> array_sort comparefn xs = xs"
proof (induction xs)
  case Nil
  then show ?case by (simp add: array_sort_def)
next
  case (Cons x xs)
  then have "array_sort comparefn xs = xs" by simp
  moreover from Cons.prems have "insertStable comparefn x xs = x # xs"
    by (intro insertStable_tied) simp
  ultimately show ?case by (simp add: array_sort_def)
qed

lemma SortCompare_unparsed:
  "getTime (date a) = None \<or> getTime (date b) = None \<Longrightarrow>
   SortCompare (dateComparator getTime) a b = 0"
  by (auto simp: SortCompare_def dateComparator_def split: option.split)

lemma SortCompare_same_date:
  "date a = date b \<Longrightarrow> SortCompare (dateComparator getTime) a b = 0"
  by (simp add: SortCompare_def dateComparator_def split: option.split)

lemma SortCompare_parsed:
  "getTime (date a) = Some ta \<Longrightarrow> getTime (date b) = Some tb \<Longrightarrow>
   SortCompare (dateComparator getTime) a b = tb - ta"
  by (simp add: SortCompare_def dateComparator_def)

lemma insertStable_parsed:
  assumes "\<forall>y\<in>set (x # ys). getTime (date y) \<noteq> None"
  shows "insertStable (dateComparator getTime) x ys
         = insort_key (\<lambda>order. - the (getTime (date order))) x ys"
  using assms
proof (induction ys)
  case Nil
  then show ?case by simp
next
  case (Cons y ys)
  from Cons.prems obtain tx ty where t: "getTime (date x) = Some tx" "getTime (date y) = Some ty"
    by auto
  from Cons show ?case by (simp add: SortCompare_parsed [OF t] t)
qed

lemma set_insertStable: "set (insertStable comparefn x ys) = insert x (set ys)"
  by (induction ys) auto

lemma set_array_sort: "set (array_sort comparefn xs) = set xs"
  by (induction xs) (simp_all add: array_sort_def set_insertStable)

text \<open>
  When the host reads every stored date, the comparator is consistent and the sorted
  array is the stable rearrangement by descending time.
\<close>

lemma array_sort_parsed:
  assumes "\<forall>y\<in>set xs. getTime (date y) \<noteq> None"
  shows "array_sort (dateComparator getTime) xs
         = sort_key (\<lambda>order. - the (getTime (date order))) xs"
  using assms
proof (induction xs)
  case Nil
  then show ?case by (simp add: array_sort_def)
next
  case (Cons x xs)
  then have ih: "array_sort (dateComparator getTime) xs
         = sort_key (\<lambda>order. - the (getTime (date order))) xs"
    by simp
  have "\<forall>y\<in>set (x # array_sort (dateComparator getTime) xs). getTime (date y) \<noteq> None"
    using Cons.prems by (simp add: set_array_sort)
  from insertStable_parsed [OF this] ih show ?case
    by (simp add: array_sort_def)
qed

text \<open>
  When the host reads none of the stored dates, every comparison is \<^verbatim>\<open>NaN\<close>, the sort
  leaves the array as it is, and the listing is the stored collection, filtered, in the
  order in which \<^verbatim>\<open>addOrder\<close> appended the orders: oldest first.
\<close>

lemma loadAdminOrders_unparsed:
  assumes "\<forall>order\<in>set (getAllOrders um). getTime (date order) = None"
  shows "loadAdminOrders getTime True filterStatus um =
     Some (filter (\<lambda>order. filterStatus = ''all'' \<or> statusText (status order) = filterStatus)
            (getAllOrders um))"
proof -
  have "array_sort (dateComparator getTime) (getAllOrders um) = getAllOrders um"
    using assms by (intro array_sort_tied) (simp add: SortCompare_unparsed)
  then show ?thesis by (cases "filterStatus = ''all''") (simp_all add: loadAdminOrders_def Let_def)
qed

text \<open>
  When the host reads every stored date, the listing is the stable rearrangement by
  descending host time, filtered.
\<close>

lemma loadAdminOrders_parsed:
  assumes "\<forall>order\<in>set (getAllOrders um). getTime (date order) \<noteq> None"
  shows "loadAdminOrders getTime True filterStatus um =
     Some (filter (\<lambda>order. filterStatus = ''all'' \<or> statusText (status order) = filterStatus)
            (sort_key (\<lambda>order. - the (getTime (date order))) (getAllOrders um)))"
  using array_sort_parsed [OF assms]
  by (cases "filterStatus = ''all''") (simp_all add: loadAdminOrders_def Let_def)

text \<open>
  Two orders whose date strings are equal (placed within one second) compare as equal on
  every host and stay in stored order.
\<close>

lemma loadAdminOrders_same_second:
  "loadAdminOrders getTime True ''pending''
     (sampleUsers [sampleOrder 1 ''02.11.2026, 10:00:00'' pending,
                   sampleOrder 2 ''02.11.2026, 10:00:00'' pending])
   = Some [sampleOrder 1 ''02.11.2026, 10:00:00'' pending,
           sampleOrder 2 ''02.11.2026, 10:00:00'' pending]"
proof -
  let ?a = "sampleOrder 1 ''02.11.2026, 10:00:00'' pending"
  let ?b = "sampleOrder 2 ''02.11.2026, 10:00:00'' pending"
  let ?um = "sampleUsers [?a, ?b]"
  have g: "getAllOrders ?um = [?a, ?b]"
    by (simp add: getAllOrders_def sampleUsers_def)
  have d: "date ?a = date ?b" by (simp add: sampleOrder_def)
  have st: "status ?a = pending" "status ?b = pending" by (simp_all add: sampleOrder_def)
  have "array_sort (dateComparator getTime) [?a, ?b] = [?a, ?b]"
    by (simp add: array_sort_def SortCompare_same_date [OF d])
  then show ?thesis
    by (simp add: loadAdminOrders_def Let_def g st)
qed

text \<open>
  C5. The claim is that the listing shows the orders newest first. Checkout stores the
  creation time as the string \<^verbatim>\<open>toLocaleString('ru-RU')\<close> gives, day first:
  \<^verbatim>\<open>13.11.2026, 10:00:00\<close>. Order 1 was placed then, order 2 the next day at 09:30:00;
  \<^verbatim>\<open>addOrder\<close> appended them in this order. On a host whose \<^verbatim>\<open>Date\<close> does not read these
  strings the comparator is \<^verbatim>\<open>NaN\<close> and the listing for the filter \<^verbatim>\<open>'all'\<close> shows order 1
  before order 2: the older one first.
\<close>

theorem loadAdminOrders_oldest_first:
  "loadAdminOrders invalidDate True ''all''
     (sampleUsers [sampleOrder 1 ''13.11.2026, 10:00:00'' pending,
                   sampleOrder 2 ''14.11.2026, 09:30:00'' pending])
   = Some [sampleOrder 1 ''13.11.2026, 10:00:00'' pending,
           sampleOrder 2 ''14.11.2026, 09:30:00'' pending]"
proof -
  let ?um = "sampleUsers [sampleOrder 1 ''13.11.2026, 10:00:00'' pending,
                   sampleOrder 2 ''14.11.2026, 09:30:00'' pending]"
  have g: "getAllOrders ?um = [sampleOrder 1 ''13.11.2026, 10:00:00'' pending,
                   sampleOrder 2 ''14.11.2026, 09:30:00'' pending]"
    by (simp add: getAllOrders_def sampleUsers_def)
  have "\<forall>order\<in>set (getAllOrders ?um). invalidDate (date order) = None"
    by (simp add: invalidDate_def)
  from loadAdminOrders_unparsed [OF this, of "''all''"]
  show ?thesis
    by (simp add: g)
qed

end
